theory Spec2Isabelle
  imports Complex_Main
begin

section \<open>The sentiment pipeline of lambda_function.py\<close>

text \<open>
  The program is one Python module: \<^verbatim>\<open>get_secret\<close> and \<^verbatim>\<open>lambda_handler\<close>.
  Everything it does goes through external collaborators: the secret store, the
  content API, the sentiment library, the wall clock and the table store. They are the
  fields of the record \<open>world\<close>: each field is the outcome of one kind of call, with
  the exception it raises (if any) as a value. What the handler does to the outside is
  the list of \<open>event\<close>s it returns, in program order, next to its result.
\<close>

subsection \<open>Exceptions\<close>

text \<open>
  The source names one exception class, \<^verbatim>\<open>ClientError\<close> (botocore), in both
  of its \<^verbatim>\<open>except\<close> clauses. \<open>KeyError\<close> and \<open>TypeError\<close> are what Python's
  subscript raises. \<open>OtherException cls msg\<close> is an exception of any class that is
  not \<^verbatim>\<open>ClientError\<close> or one of its subclasses (a connection error, a parse error,
  an error of the content API). The string of \<open>ClientError\<close> is \<^verbatim>\<open>str(e)\<close>.
\<close>

datatype exn =
    ClientError string
  | KeyError string
  | TypeError string
  | OtherException string string

subsection \<open>Values\<close>

text \<open>What \<^verbatim>\<open>json.loads\<close> returns and \<^verbatim>\<open>json.dumps\<close> takes.\<close>

datatype json =
    JNull
  | JBool bool
  | JInt int
  | JFloat real
  | JString string
  | JArray "json list"
  | JObject "(string \<times> json) list"

text \<open>
  \<^verbatim>\<open>value[key]\<close> with a string key: a dict raises \<^verbatim>\<open>KeyError\<close> when the key is
  absent; every other JSON value (list, str, number, bool, None) raises
  \<^verbatim>\<open>TypeError\<close> for a string index.
\<close>

fun subscript :: "json \<Rightarrow> string \<Rightarrow> exn + json" where
  "subscript (JObject kvs) k =
     (case map_of kvs k of None \<Rightarrow> Inl (KeyError k) | Some v \<Rightarrow> Inr v)"
| "subscript j k = Inl (TypeError ''bad subscript'')"

text \<open>
  A number held in a record. The compound score is a Python float, modelled by its real
  value (a compound score lies in [-1, 1], so it is never NaN or infinite). Comparing a
  double with the literal \<^verbatim>\<open>0.05\<close> decides the same as comparing its real value with
  5/100: the double of the literal is the least double above 5/100, and that of
  \<^verbatim>\<open>-0.05\<close> the greatest double below -5/100. \<open>Decimal s\<close> is the value of Python's
  \<^verbatim>\<open>Decimal(s)\<close>, the exact decimal written by the literal \<open>s\<close>.
\<close>

datatype number = Float real | Decimal string

text \<open>A post of the listing: the two attributes the handler reads.\<close>

record post =
  post_id :: string
  post_title :: string

text \<open>The dict appended to \<^verbatim>\<open>processed_results\<close> (lines 63 to 71).\<close>

record item =
  SubredditName :: string
  Timestamp :: string
  PostID :: string
  Title :: string
  SentimentScore :: number
  SentimentLabel :: string

text \<open>The dict the handler returns (lines 93 to 97).\<close>

record response =
  statusCode :: int
  body :: string

subsection \<open>Effects\<close>

datatype event =
    Print string
  | GetSecretValue string string
  | Hot string nat
  | PutItem item

text \<open>
  The collaborators.
  \<^item> \<open>get_secret_value region secret_id\<close>: the response dict (its string fields), or the
    exception raised.
  \<^item> \<open>json_loads\<close>, \<open>json_dumps\<close>: the JSON library.
  \<^item> \<open>hot client_id client_secret user_agent subreddit limit\<close>: what building the
    content client and iterating \<^verbatim>\<open>subreddit(name).hot(limit=n)\<close> gives: the posts
    yielded, in order, and the exception that ends the iteration, if one does.
  \<^item> \<open>polarity_scores title\<close>: the dict of scores of the sentiment library.
  \<^item> \<open>now_isoformat k\<close>: the value of \<^verbatim>\<open>datetime.datetime.now().isoformat()\<close> at the
    \<open>k\<close>-th reading of the clock in this invocation (counting from 0).
  \<^item> \<open>str_number\<close>: Python's \<^verbatim>\<open>str\<close> on a number.
  \<^item> \<open>put_item before it\<close>: the exception raised by \<^verbatim>\<open>batch.put_item(Item=it)\<close>, if
    any, when \<open>before\<close> are the items put earlier in the same batch.
  \<^item> \<open>batch_exit puts\<close>: the exception raised when the \<^verbatim>\<open>with\<close> statement of the
    batch writer is left, if any, when \<open>puts\<close> are the items \<^verbatim>\<open>put_item\<close> was called
    with. The batch writer never swallows an exception of the body.
\<close>

record world =
  get_secret_value :: "string \<Rightarrow> string \<Rightarrow> exn + (string \<rightharpoonup> string)"
  json_loads :: "string \<Rightarrow> exn + json"
  json_dumps :: "json \<Rightarrow> string"
  hot :: "json \<Rightarrow> json \<Rightarrow> string \<Rightarrow> string \<Rightarrow> nat \<Rightarrow> post list \<times> exn option"
  polarity_scores :: "string \<Rightarrow> exn + (string \<rightharpoonup> real)"
  now_isoformat :: "nat \<Rightarrow> string"
  str_number :: "number \<Rightarrow> string"
  put_item :: "item list \<Rightarrow> item \<Rightarrow> exn option"
  batch_exit :: "item list \<Rightarrow> exn option"

subsection \<open>Constants of the module\<close>

definition REGION_NAME :: string where
  "REGION_NAME = ''eu-west-3''"

definition SECRET_NAME :: string where
  "SECRET_NAME = ''RedditPRAWCredentials''"

definition TABLE_NAME :: string where
  "TABLE_NAME = ''SentimentObserverResults''"

definition SUBREDDIT_NAME :: string where
  "SUBREDDIT_NAME = ''valencia''"

definition LIMIT_POSTS :: nat where
  "LIMIT_POSTS = 50"

definition USER_AGENT :: string where
  "USER_AGENT = ''python:macos:sentiment.collector:v1.0 (by /u/JMatthewGutierrez)''"

definition STATUS_TEXT :: string where
  "STATUS_TEXT = ''Pipeline executed successfully and data loaded to DynamoDB and S3!''"

subsection \<open>Formatting an integer in an f-string\<close>

definition digit_char :: "nat \<Rightarrow> char" where
  "digit_char d = ''0123456789'' ! d"

function str_nat :: "nat \<Rightarrow> string" where
  "str_nat n = (if n < 10 then [digit_char n] else str_nat (n div 10) @ [digit_char (n mod 10)])"
  by pat_completeness auto
termination
  by (relation "measure id") auto

declare str_nat.simps [simp del]

subsection \<open>get\_secret (lines 22 to 32)\<close>

definition get_secret :: "world \<Rightarrow> event list \<times> (exn + json)" where
  "get_secret w =
     (case get_secret_value w REGION_NAME SECRET_NAME of
        Inl e \<Rightarrow>
          (case e of
             ClientError m \<Rightarrow>
               ([GetSecretValue REGION_NAME SECRET_NAME,
                 Print (''Error: No se pudo obtener el secreto '' @ SECRET_NAME @ ''.'')],
                Inl e)
           | _ \<Rightarrow> ([GetSecretValue REGION_NAME SECRET_NAME], Inl e))
      | Inr resp \<Rightarrow>
          (case resp ''SecretString'' of
             None \<Rightarrow> ([GetSecretValue REGION_NAME SECRET_NAME], Inl (KeyError ''SecretString''))
           | Some secret_string \<Rightarrow>
               ([GetSecretValue REGION_NAME SECRET_NAME], json_loads w secret_string)))"

subsection \<open>The stages of lambda\_handler\<close>

text \<open>
  Lines 41 to 55: the credentials are loaded, the two keys are looked up in the order
  the call \<^verbatim>\<open>praw.Reddit(client_id=..., client_secret=..., user_agent=...)\<close> evaluates
  them, and the listing is requested. Lines 37 and 38 before them build the handle of
  the table; that sends no request.
\<close>

definition fetch :: "world \<Rightarrow> event list \<times> (exn + post list \<times> exn option)" where
  "fetch w =
     (case get_secret w of
        (ev, Inl e) \<Rightarrow> (ev, Inl e)
      | (ev, Inr PRAW_CREDENTIALS) \<Rightarrow>
          (case subscript PRAW_CREDENTIALS ''client_id'' of
             Inl e \<Rightarrow> (ev, Inl e)
           | Inr client_id \<Rightarrow>
               (case subscript PRAW_CREDENTIALS ''client_secret'' of
                  Inl e \<Rightarrow> (ev, Inl e)
                | Inr client_secret \<Rightarrow>
                    (ev @ [Hot SUBREDDIT_NAME LIMIT_POSTS],
                     Inr (hot w client_id client_secret USER_AGENT SUBREDDIT_NAME LIMIT_POSTS)))))"

text \<open>Lines 69 and 70.\<close>

definition sentiment_label :: "real \<Rightarrow> string" where
  "sentiment_label compound =
     (if compound \<ge> 0.05 then ''Positive''
      else (if compound \<le> - 0.05 then ''Negative'' else ''Neutral''))"

text \<open>
  The dict literal of lines 63 to 71, for the post \<open>p\<close> with compound score
  \<open>compound\<close>, built when \<open>k\<close> records exist already: the clock is read once per record,
  so this is its \<open>k\<close>-th reading.
\<close>

definition build_item :: "world \<Rightarrow> nat \<Rightarrow> post \<Rightarrow> real \<Rightarrow> item" where
  "build_item w k p compound =
     \<lparr> SubredditName = SUBREDDIT_NAME,
       Timestamp = now_isoformat w k,
       PostID = post_id p,
       Title = post_title p,
       SentimentScore = Float compound,
       SentimentLabel = sentiment_label compound \<rparr>"

text \<open>
  The loop of lines 60 to 73 over the posts the listing yields; \<open>stop\<close> is the
  exception that ends the listing, raised when the loop asks for the next post. The
  \<^verbatim>\<open>print\<close> of line 73 is inside the loop.
\<close>

fun process_posts ::
  "world \<Rightarrow> post list \<Rightarrow> exn option \<Rightarrow> item list \<Rightarrow> event list \<times> (exn + item list)" where
  "process_posts w [] stop processed_results =
     (case stop of None \<Rightarrow> ([], Inr processed_results) | Some e \<Rightarrow> ([], Inl e))"
| "process_posts w (p # posts) stop processed_results =
     (case polarity_scores w (post_title p) of
        Inl e \<Rightarrow> ([], Inl e)
      | Inr score \<Rightarrow>
          (case score ''compound'' of
             None \<Rightarrow> ([], Inl (KeyError ''compound''))
           | Some compound \<Rightarrow>
               (let processed_results' =
                      processed_results @ [build_item w (length processed_results) p compound];
                    line = Print (''Posts procesados y listos para carga: ''
                                    @ str_nat (length processed_results'));
                    (ev, r) = process_posts w posts stop processed_results'
                in (line # ev, r))))"

text \<open>
  The body of the \<^verbatim>\<open>with\<close> statement, lines 78 to 81. \<open>done\<close> are the records
  handled so far, \<open>todo\<close> those to come; together they are \<^verbatim>\<open>processed_results\<close>.
  Line 80 assigns to a key of the record itself, so the list returned is
  \<^verbatim>\<open>processed_results\<close> as the loop leaves it.
\<close>

fun put_all ::
  "world \<Rightarrow> item list \<Rightarrow> item list \<Rightarrow> event list \<times> item list \<times> exn option" where
  "put_all w done [] = ([], done, None)"
| "put_all w done (it # todo) =
     (let it' = it\<lparr>SentimentScore := Decimal (str_number w (SentimentScore it))\<rparr> in
      case put_item w done it' of
        Some e \<Rightarrow> ([PutItem it'], done @ it' # todo, Some e)
      | None \<Rightarrow>
          (let (ev, res, err) = put_all w (done @ [it']) todo
           in (PutItem it' # ev, res, err)))"

text \<open>What an event list holds: the items put, the lines printed, a request of the listing.\<close>

definition puts_of :: "event list \<Rightarrow> item list" where
  "puts_of ev = concat (map (\<lambda>e. case e of PutItem it \<Rightarrow> [it] | _ \<Rightarrow> []) ev)"

definition prints_of :: "event list \<Rightarrow> string list" where
  "prints_of ev = concat (map (\<lambda>e. case e of Print s \<Rightarrow> [s] | _ \<Rightarrow> []) ev)"

definition fetched :: "event list \<Rightarrow> bool" where
  "fetched ev = list_ex (\<lambda>e. case e of Hot s n \<Rightarrow> True | _ \<Rightarrow> False) ev"

text \<open>
  The \<^verbatim>\<open>with\<close> statement, lines 77 to 81: leaving it closes the batch, whether the
  body raised or not; an exception of the closing replaces the one of the body.
\<close>

definition batch_write ::
  "world \<Rightarrow> item list \<Rightarrow> event list \<times> item list \<times> exn option" where
  "batch_write w processed_results =
     (let (ev, res, err) = put_all w [] processed_results
      in case batch_exit w (puts_of ev) of
           Some e \<Rightarrow> (ev, res, Some e)
         | None \<Rightarrow> (ev, res, err))"

text \<open>The \<^verbatim>\<open>try\<close> statement, lines 76 to 88.\<close>

definition persist ::
  "world \<Rightarrow> item list \<Rightarrow> event list \<times> item list \<times> exn option" where
  "persist w processed_results =
     (let (ev, res, err) = batch_write w processed_results
      in case err of
           None \<Rightarrow>
             (ev @ [Print (''Carga exitosa a DynamoDB: '' @ str_nat (length res)
                             @ '' elementos.'')],
              res, None)
         | Some e \<Rightarrow>
             (case e of
                ClientError m \<Rightarrow>
                  (ev @ [Print (''ERROR: Fallo al escribir en DynamoDB. '' @ m)], res, Some e)
              | _ \<Rightarrow> (ev, res, Some e)))"

text \<open>Lines 57 to 73: the records built from what the listing yields.\<close>

definition build :: "world \<Rightarrow> event list \<times> (exn + item list)" where
  "build w =
     (case fetch w of
        (ev, Inl e) \<Rightarrow> (ev, Inl e)
      | (ev, Inr (posts, stop)) \<Rightarrow>
          (let (ev', r) = process_posts w posts stop [] in (ev @ ev', r)))"

text \<open>Lines 93 to 97.\<close>

definition format_response :: "world \<Rightarrow> item list \<Rightarrow> response" where
  "format_response w processed_results =
     \<lparr> statusCode = 200,
       body = json_dumps w (JObject [(''posts_count'', JInt (int (length processed_results))),
                                     (''status'', JString STATUS_TEXT)]) \<rparr>"

subsection \<open>lambda\_handler (lines 34 to 97)\<close>

definition lambda_handler :: "world \<Rightarrow> 'e \<Rightarrow> 'c \<Rightarrow> event list \<times> (exn + response)" where
  "lambda_handler w event context =
     (case build w of
        (ev, Inl e) \<Rightarrow> (ev, Inl e)
      | (ev, Inr processed_results) \<Rightarrow>
          (case persist w processed_results of
             (ev', res, Some e) \<Rightarrow> (ev @ ev', Inl e)
           | (ev', res, None) \<Rightarrow> (ev @ ev', Inr (format_response w res))))"

subsection \<open>Vocabulary of the properties\<close>

text \<open>The compound score the sentiment library gives a title, when it gives one.\<close>

definition compound_of :: "world \<Rightarrow> string \<Rightarrow> real option" where
  "compound_of w t =
     (case polarity_scores w t of Inl e \<Rightarrow> None | Inr score \<Rightarrow> score ''compound'')"

text \<open>What line 80 makes of a record.\<close>

definition decimalize :: "world \<Rightarrow> item \<Rightarrow> item" where
  "decimalize w it = it\<lparr>SentimentScore := Decimal (str_number w (SentimentScore it))\<rparr>"

text \<open>A record as the loop builds it holds the float score of its own title.\<close>

definition scored :: "world \<Rightarrow> item \<Rightarrow> bool" where
  "scored w r =
     (case compound_of w (Title r) of
        None \<Rightarrow> False
      | Some x \<Rightarrow> SentimentScore r = Float x)"

text \<open>
  The records the loop builds for the posts of a listing whose titles all get a score,
  in closed form, and what the persister makes of them.
\<close>

definition built_records :: "world \<Rightarrow> post list \<Rightarrow> item list" where
  "built_records w posts =
     map (\<lambda>(k, p). build_item w k p (the (compound_of w (post_title p)))) (enumerate 0 posts)"

definition stored_records :: "world \<Rightarrow> post list \<Rightarrow> item list" where
  "stored_records w posts = map (decimalize w) (built_records w posts)"

text \<open>
  What the handler has done when the loop over \<open>n\<close> posts ends: the request to the
  secret store, the request of the listing and one progress line per post.
\<close>

definition progress :: "nat \<Rightarrow> event list" where
  "progress n =
     [GetSecretValue REGION_NAME SECRET_NAME, Hot SUBREDDIT_NAME LIMIT_POSTS] @
     map (\<lambda>k. Print (''Posts procesados y listos para carga: '' @ str_nat k)) [1..<Suc n]"

subsection \<open>Sample environments\<close>

definition sample_posts :: "post list" where
  "sample_posts =
     [\<lparr>post_id = ''a1'', post_title = ''good''\<rparr>, \<lparr>post_id = ''b2'', post_title = ''meh''\<rparr>]"

text \<open>
  Every collaborator answers: the secret holds both keys, the listing yields \<open>posts\<close>,
  the title \<open>good\<close> scores 0.1 and every other title 0, and the table store accepts
  every item.
\<close>

definition sample_world :: "post list \<Rightarrow> world" where
  "sample_world posts =
     \<lparr> get_secret_value = (\<lambda>region sid. Inr [''SecretString'' \<mapsto> ''{...}'']),
       json_loads = (\<lambda>s. Inr (JObject [(''client_id'', JString ''id''),
                                         (''client_secret'', JString ''pw'')])),
       json_dumps = (\<lambda>j. case subscript j ''posts_count'' of
                             Inr (JInt n) \<Rightarrow> ''posts_count='' @ str_nat (nat n)
                           | _ \<Rightarrow> ''?''),
       hot = (\<lambda>cid cs ua name limit. (posts, None)),
       polarity_scores = (\<lambda>t. Inr [''compound'' \<mapsto> (if t = ''good'' then 0.1 else 0)]),
       now_isoformat = (\<lambda>k. ''2024-01-01T00:00:0'' @ str_nat k),
       str_number = (\<lambda>n. case n of
                             Float x \<Rightarrow> (if x = 0.1 then ''0.1'' else ''0.0'')
                           | Decimal s \<Rightarrow> s),
       put_item = (\<lambda>before it. None),
       batch_exit = (\<lambda>puts. None) \<rparr>"

text \<open>
  A failure that is not a \<^verbatim>\<open>ClientError\<close>: the collaborator cannot be reached.
\<close>

definition unreachable :: exn where
  "unreachable = OtherException ''EndpointConnectionError'' ''Could not connect to the endpoint URL''"

text \<open>
  The table store raises \<open>e\<close> when the batch is closed with items in it: with fewer
  items than the buffer of the batch writer holds, that is when they are sent.
\<close>

definition close_fails :: "exn \<Rightarrow> world" where
  "close_fails e =
     (sample_world sample_posts)\<lparr>batch_exit := (\<lambda>puts. if puts = [] then None else Some e)\<rparr>"

text \<open>The secret store raises \<open>e\<close>.\<close>

definition secret_fails :: "exn \<Rightarrow> world" where
  "secret_fails e = (sample_world sample_posts)\<lparr>get_secret_value := (\<lambda>region sid. Inl e)\<rparr>"

text \<open>Fifty posts, and a clock that gives the same reading every time it is read.\<close>

definition fifty_posts :: "post list" where
  "fifty_posts = replicate 50 \<lparr>post_id = ''a1'', post_title = ''good''\<rparr>"

definition frozen_clock :: world where
  "frozen_clock = (sample_world fifty_posts)\<lparr>now_isoformat := (\<lambda>k. ''2024-01-01T00:00:00'')\<rparr>"

definition frozen_record :: item where
  "frozen_record =
     \<lparr>SubredditName = ''valencia'', Timestamp = ''2024-01-01T00:00:00'', PostID = ''a1'',
      Title = ''good'', SentimentScore = Float 0.1, SentimentLabel = ''Positive''\<rparr>"

text \<open>The secret parses to a JSON object without \<open>client_secret\<close>.\<close>

definition secret_lacks_key :: world where
  "secret_lacks_key =
     (sample_world sample_posts)\<lparr>json_loads := (\<lambda>s. Inr (JObject [(''client_id'', JString ''id'')]))\<rparr>"


section \<open>Properties\<close>

subsection \<open>The event list and the two loops\<close>

lemma puts_of_append: "puts_of (a @ b) = puts_of a @ puts_of b"
  by (simp add: puts_of_def)

lemma puts_of_simps:
  "puts_of [] = []"
  "puts_of (PutItem it # ev) = it # puts_of ev"
  "puts_of (Print s # ev) = puts_of ev"
  "puts_of (GetSecretValue r i # ev) = puts_of ev"
  "puts_of (Hot n k # ev) = puts_of ev"
  by (simp_all add: puts_of_def)

lemma process_posts_Cons:
  "polarity_scores w (post_title p) = Inr score \<Longrightarrow> score ''compound'' = Some c \<Longrightarrow>
   process_posts w (p # posts) stop acc =
     (Print (''Posts procesados y listos para carga: '' @ str_nat (Suc (length acc)))
        # fst (process_posts w posts stop (acc @ [build_item w (length acc) p c])),
      snd (process_posts w posts stop (acc @ [build_item w (length acc) p c])))"
  by (simp add: Let_def case_prod_beta)

lemma process_posts_raise:
  "compound_of w (post_title p) = None \<Longrightarrow>
   fst (process_posts w (p # posts) stop acc) = [] \<and>
   (\<exists>e. snd (process_posts w (p # posts) stop acc) = Inl e)"
  by (auto simp: compound_of_def split: sum.splits option.splits)

lemma compound_of_Some:
  "compound_of w t = Some c \<Longrightarrow>
   \<exists>score. polarity_scores w t = Inr score \<and> score ''compound'' = Some c"
  by (auto simp: compound_of_def split: sum.splits)

lemma process_posts_events:
  "puts_of (fst (process_posts w posts stop acc)) = [] \<and>
   \<not> fetched (fst (process_posts w posts stop acc))"
proof (induction posts arbitrary: acc)
  case Nil
  then show ?case by (simp add: puts_of_simps fetched_def split: option.splits)
next
  case (Cons p posts)
  show ?case
  proof (cases "compound_of w (post_title p)")
    case None
    then show ?thesis
      using process_posts_raise [of w p posts stop acc] by (simp add: puts_of_simps fetched_def)
  next
    case (Some c)
    then obtain score where "polarity_scores w (post_title p) = Inr score" "score ''compound'' = Some c"
      using compound_of_Some by blast
    then show ?thesis
      using Cons.IH [of "acc @ [build_item w (length acc) p c]"]
      by (simp add: process_posts_Cons puts_of_simps fetched_def del: process_posts.simps)
  qed
qed

lemma process_posts_ok:
  "\<forall>p \<in> set posts. compound_of w (post_title p) \<noteq> None \<Longrightarrow>
   snd (process_posts w posts None acc) =
     Inr (acc @ map (\<lambda>(k, p). build_item w k p (the (compound_of w (post_title p))))
                    (enumerate (length acc) posts))"
proof (induction posts arbitrary: acc)
  case Nil
  then show ?case by simp
next
  case (Cons p posts)
  from Cons.prems obtain c where c: "compound_of w (post_title p) = Some c"
    by auto
  then obtain score where sc: "polarity_scores w (post_title p) = Inr score"
      "score ''compound'' = Some c"
    using compound_of_Some by blast
  have rest: "\<forall>p \<in> set posts. compound_of w (post_title p) \<noteq> None"
    using Cons.prems by simp
  show ?case
    using Cons.IH [OF rest, of "acc @ [build_item w (length acc) p c]"] c
    by (simp add: process_posts_Cons [OF sc] del: process_posts.simps)
qed

lemma process_posts_all_scored:
  "snd (process_posts w posts stop acc) = Inr rs \<Longrightarrow> list_all (scored w) acc \<Longrightarrow> list_all (scored w) rs"
proof (induction posts arbitrary: acc)
  case Nil
  then show ?case by (simp split: option.splits)
next
  case (Cons p posts)
  show ?case
  proof (cases "compound_of w (post_title p)")
    case None
    then show ?thesis
      using process_posts_raise [of w p posts stop acc] Cons.prems(1) by auto
  next
    case (Some c)
    then obtain score where sc: "polarity_scores w (post_title p) = Inr score"
        "score ''compound'' = Some c"
      using compound_of_Some by blast
    have "scored w (build_item w (length acc) p c)"
      using Some by (simp add: scored_def build_item_def)
    then show ?thesis
      using Cons.IH [of "acc @ [build_item w (length acc) p c]"] Cons.prems
      by (simp add: process_posts_Cons [OF sc] del: process_posts.simps)
  qed
qed

lemma put_all_step:
  "put_all w done (it # todo) =
     (case put_item w done (decimalize w it) of
        Some e \<Rightarrow> ([PutItem (decimalize w it)], done @ decimalize w it # todo, Some e)
      | None \<Rightarrow>
          (PutItem (decimalize w it) # fst (put_all w (done @ [decimalize w it]) todo),
           snd (put_all w (done @ [decimalize w it]) todo)))"
  by (simp add: decimalize_def Let_def case_prod_beta split: option.splits)

lemma put_all_puts:
  "set (puts_of (fst (put_all w done todo))) \<subseteq> decimalize w ` set todo"
proof (induction todo arbitrary: "done")
  case Nil
  then show ?case by (simp add: puts_of_simps)
next
  case (Cons it todo)
  show ?case
    using Cons.IH [of "done @ [decimalize w it]"]
    by (auto simp: put_all_step puts_of_simps simp del: put_all.simps split: option.splits)
qed

lemma put_all_ok:
  "snd (snd (put_all w done todo)) = None \<Longrightarrow>
   fst (snd (put_all w done todo)) = done @ map (decimalize w) todo \<and>
   puts_of (fst (put_all w done todo)) = map (decimalize w) todo"
proof (induction todo arbitrary: "done")
  case Nil
  then show ?case by (simp add: puts_of_simps)
next
  case (Cons it todo)
  then show ?case
    by (auto simp: put_all_step puts_of_simps simp del: put_all.simps split: option.splits)
qed

lemma process_posts_length:
  "snd (process_posts w posts stop acc) = Inr rs \<Longrightarrow>
   stop = None \<and> length rs = length acc + length posts"
proof (induction posts arbitrary: acc)
  case Nil
  then show ?case by (auto split: option.splits)
next
  case (Cons p posts)
  show ?case
  proof (cases "compound_of w (post_title p)")
    case None
    then show ?thesis
      using process_posts_raise [of w p posts stop acc] Cons.prems by auto
  next
    case (Some c)
    then obtain score where sc: "polarity_scores w (post_title p) = Inr score"
        "score ''compound'' = Some c"
      using compound_of_Some by blast
    show ?thesis
      using Cons.IH [of "acc @ [build_item w (length acc) p c]"] Cons.prems
      by (simp add: process_posts_Cons [OF sc] del: process_posts.simps)
  qed
qed

subsection \<open>The stages\<close>

lemma get_secret_events:
  "puts_of (fst (get_secret w)) = [] \<and> \<not> fetched (fst (get_secret w))"
  by (simp add: get_secret_def puts_of_simps fetched_def split: sum.splits exn.splits option.splits)

lemma fetch_cases:
  "(\<exists>e. fetch w = (fst (get_secret w), Inl e)) \<or>
   (\<exists>l. fetch w = (fst (get_secret w) @ [Hot SUBREDDIT_NAME LIMIT_POSTS], Inr l))"
  by (cases "get_secret w") (auto simp: fetch_def split: sum.splits)

lemma fetch_puts: "puts_of (fst (fetch w)) = []"
  using fetch_cases [of w] get_secret_events [of w]
  by (auto simp: puts_of_append puts_of_simps)

lemma build_Inr:
  "snd (fetch w) = Inr (posts, stop) \<Longrightarrow>
   build w = (fst (fetch w) @ fst (process_posts w posts stop []),
              snd (process_posts w posts stop []))"
  by (cases "fetch w") (simp add: build_def case_prod_beta)

lemma build_Inl: "snd (fetch w) = Inl e \<Longrightarrow> build w = (fst (fetch w), Inl e)"
  by (cases "fetch w") (simp add: build_def)

lemma build_puts: "puts_of (fst (build w)) = []"
proof (cases "snd (fetch w)")
  case (Inl e)
  then show ?thesis by (simp add: build_Inl fetch_puts)
next
  case (Inr l)
  then show ?thesis
    by (cases l) (simp add: build_Inr puts_of_append fetch_puts process_posts_events)
qed

lemma build_scored: "snd (build w) = Inr rs \<Longrightarrow> list_all (scored w) rs"
proof (cases "snd (fetch w)")
  case (Inl e)
  assume "snd (build w) = Inr rs"
  with Inl show ?thesis by (simp add: build_Inl)
next
  case (Inr l)
  assume b: "snd (build w) = Inr rs"
  obtain posts stop where l: "l = (posts, stop)" by (cases l)
  show ?thesis
    using b Inr l process_posts_all_scored [of w posts stop "[]" rs]
    by (simp add: build_Inr)
qed

lemma batch_write_parts:
  "fst (batch_write w rs) = fst (put_all w [] rs)"
  "fst (snd (batch_write w rs)) = fst (snd (put_all w [] rs))"
  by (simp_all add: batch_write_def case_prod_beta split: option.splits)

lemma persist_parts:
  "puts_of (fst (persist w rs)) = puts_of (fst (put_all w [] rs))"
  "fst (snd (persist w rs)) = fst (snd (put_all w [] rs))"
  "snd (snd (persist w rs)) = snd (snd (batch_write w rs))"
  by (simp_all add: persist_def case_prod_beta batch_write_parts puts_of_append puts_of_simps
        split: option.splits exn.splits)

lemma handler_Inl: "snd (build w) = Inl e \<Longrightarrow> lambda_handler w event context = (fst (build w), Inl e)"
  by (cases "build w") (simp add: lambda_handler_def)

lemma handler_Inr:
  "snd (build w) = Inr rs \<Longrightarrow>
   lambda_handler w event context =
     (fst (build w) @ fst (persist w rs),
      case snd (snd (persist w rs)) of
        Some e \<Rightarrow> Inl e
      | None \<Rightarrow> Inr (format_response w (fst (snd (persist w rs)))))"
  by (cases "build w"; cases "persist w rs")
     (auto simp: lambda_handler_def split: option.splits)

lemma map_enumerate_fst: "map (\<lambda>x. f (fst x)) (enumerate n xs) = map f [n..<n + length xs]"
proof (induction xs arbitrary: n)
  case Nil
  then show ?case by simp
next
  case (Cons x xs)
  have "[n..<n + length (x # xs)] = n # [Suc n..<Suc n + length xs]"
    by (subst upt_rec) simp
  with Cons.IH [of "Suc n"] show ?case by simp
qed

lemma batch_write_None:
  "snd (snd (batch_write w rs)) = None \<Longrightarrow> snd (snd (put_all w [] rs)) = None"
  by (simp add: batch_write_def case_prod_beta split: option.splits)



lemma puts_of_PutItems: "puts_of (map PutItem xs) = xs"
  by (induction xs) (simp_all add: puts_of_simps)

lemma puts_of_PutItems_comp: "puts_of (map (PutItem \<circ> f) xs) = map f xs"
  using puts_of_PutItems [of "map f xs"] by simp

lemma put_all_succeeds:
  "\<forall>j < length todo. put_item w (done @ map (decimalize w) (take j todo))
                          (decimalize w (todo ! j)) = None \<Longrightarrow>
   put_all w done todo =
     (map PutItem (map (decimalize w) todo), done @ map (decimalize w) todo, None)"
proof (induction todo arbitrary: "done")
  case Nil
  then show ?case by simp
next
  case (Cons it todo)
  from Cons.prems have first: "put_item w done (decimalize w it) = None"
    by (auto dest: spec [of _ 0])
  have rest: "\<forall>j < length todo. put_item w ((done @ [decimalize w it]) @ map (decimalize w) (take j todo))
                          (decimalize w (todo ! j)) = None"
  proof (intro allI impI)
    fix j assume "j < length todo"
    then have "Suc j < length (it # todo)" by simp
    with Cons.prems have "put_item w (done @ map (decimalize w) (take (Suc j) (it # todo)))
                          (decimalize w ((it # todo) ! Suc j)) = None"
      by blast
    then show "put_item w ((done @ [decimalize w it]) @ map (decimalize w) (take j todo))
                          (decimalize w (todo ! j)) = None"
      by simp
  qed
  show ?case
    using Cons.IH [OF rest] first by (simp add: put_all_step del: put_all.simps)
qed

lemma put_all_raises:
  "k < length todo \<Longrightarrow>
   \<forall>j < k. put_item w (done @ map (decimalize w) (take j todo)) (decimalize w (todo ! j)) = None \<Longrightarrow>
   put_item w (done @ map (decimalize w) (take k todo)) (decimalize w (todo ! k)) = Some e \<Longrightarrow>
   put_all w done todo =
     (map PutItem (map (decimalize w) (take (Suc k) todo)),
      done @ map (decimalize w) (take (Suc k) todo) @ drop (Suc k) todo, Some e)"
proof (induction todo arbitrary: "done" k)
  case Nil
  then show ?case by simp
next
  case (Cons it todo)
  show ?case
  proof (cases k)
    case 0
    with Cons.prems show ?thesis
      by (simp add: put_all_step del: put_all.simps)
  next
    case (Suc k')
    with Cons.prems have first: "put_item w done (decimalize w it) = None"
      by (auto dest: spec [of _ 0])
    have k': "k' < length todo"
      using Cons.prems(1) Suc by simp
    have rest: "\<forall>j < k'. put_item w ((done @ [decimalize w it]) @ map (decimalize w) (take j todo))
                          (decimalize w (todo ! j)) = None"
    proof (intro allI impI)
      fix j assume "j < k'"
      then have "Suc j < k" using Suc by simp
      with Cons.prems(2) have "put_item w (done @ map (decimalize w) (take (Suc j) (it # todo)))
                          (decimalize w ((it # todo) ! Suc j)) = None"
        by blast
      then show "put_item w ((done @ [decimalize w it]) @ map (decimalize w) (take j todo))
                          (decimalize w (todo ! j)) = None"
        by simp
    qed
    have last: "put_item w ((done @ [decimalize w it]) @ map (decimalize w) (take k' todo))
                  (decimalize w (todo ! k')) = Some e"
      using Cons.prems(3) Suc by simp
    show ?thesis
      using Cons.IH [OF k' rest last] first Suc
      by (simp add: put_all_step del: put_all.simps)
  qed
qed


lemma process_posts_lines:
  "\<forall>p \<in> set posts. compound_of w (post_title p) \<noteq> None \<Longrightarrow>
   fst (process_posts w posts stop acc) =
     map (\<lambda>k. Print (''Posts procesados y listos para carga: '' @ str_nat k))
         [Suc (length acc)..<Suc (length acc + length posts)]"
proof (induction posts arbitrary: acc)
  case Nil
  then show ?case by (simp split: option.splits)
next
  case (Cons p posts)
  from Cons.prems obtain c where c: "compound_of w (post_title p) = Some c"
    by auto
  then obtain score where sc: "polarity_scores w (post_title p) = Inr score"
      "score ''compound'' = Some c"
    using compound_of_Some by blast
  have rest: "\<forall>p \<in> set posts. compound_of w (post_title p) \<noteq> None"
    using Cons.prems by simp
  have u: "[Suc (length acc)..<Suc (length acc + length (p # posts))] =
           Suc (length acc) # [Suc (Suc (length acc))..<Suc (Suc (length acc) + length posts)]"
    by (subst upt_rec) simp
  have ih: "fst (process_posts w posts stop (acc @ [build_item w (length acc) p c])) =
     map (\<lambda>k. Print (''Posts procesados y listos para carga: '' @ str_nat k))
         [Suc (Suc (length acc))..<Suc (Suc (length acc) + length posts)]"
    using Cons.IH [OF rest, of "acc @ [build_item w (length acc) p c]"] by simp
  have step: "fst (process_posts w (p # posts) stop acc) =
     Print (''Posts procesados y listos para carga: '' @ str_nat (Suc (length acc))) #
     fst (process_posts w posts stop (acc @ [build_item w (length acc) p c]))"
    by (simp add: process_posts_Cons [OF sc] del: process_posts.simps)
  show ?case
    by (simp only: step ih u list.map)
qed

lemma get_secret_Inr:
  "snd (get_secret w) = Inr c \<Longrightarrow> fst (get_secret w) = [GetSecretValue REGION_NAME SECRET_NAME]"
  by (auto simp: get_secret_def split: sum.splits exn.splits option.splits)

lemma fetch_Inr:
  "snd (fetch w) = Inr l \<Longrightarrow>
   fst (fetch w) = [GetSecretValue REGION_NAME SECRET_NAME, Hot SUBREDDIT_NAME LIMIT_POSTS]"
proof -
  assume a: "snd (fetch w) = Inr l"
  obtain ev r where g: "get_secret w = (ev, r)" by (cases "get_secret w")
  with a obtain c where "r = Inr c"
    by (cases r) (auto simp: fetch_def)
  with g have "ev = [GetSecretValue REGION_NAME SECRET_NAME]"
    using get_secret_Inr [of w c] by simp
  with a g show ?thesis
    by (auto simp: fetch_def split: sum.splits)
qed

lemma build_explicit:
  assumes "snd (fetch w) = Inr (posts, None)"
    and "\<forall>p \<in> set posts. compound_of w (post_title p) \<noteq> None"
  shows "build w = (progress (length posts), Inr (built_records w posts))"
  using process_posts_ok [OF assms(2), of "[]"] process_posts_lines [OF assms(2), of None "[]"]
    fetch_Inr [OF assms(1)]
  by (simp add: build_Inr [OF assms(1)] progress_def built_records_def prod_eq_iff)

lemma length_built_records: "length (built_records w posts) = length posts"
  by (simp add: built_records_def)

lemma batch_write_explicit:
  "put_all w [] rs = (ev, res, err) \<Longrightarrow>
   batch_write w rs = (ev, res, case batch_exit w (puts_of ev) of Some e \<Rightarrow> Some e | None \<Rightarrow> err)"
  by (simp add: batch_write_def split: option.splits)

lemma persist_raise_explicit:
  "put_all w [] rs = (ev, res, err) \<Longrightarrow>
   (case batch_exit w (puts_of ev) of Some e \<Rightarrow> Some e | None \<Rightarrow> err) = Some e \<Longrightarrow>
   persist w rs =
     (ev @ (case e of
              ClientError m \<Rightarrow> [Print (''ERROR: Fallo al escribir en DynamoDB. '' @ m)]
            | _ \<Rightarrow> []),
      res, Some e)"
  by (simp add: persist_def batch_write_explicit split: exn.splits)

lemma persist_close_fails:
  assumes "\<forall>j < length rs. put_item w (take j (map (decimalize w) rs)) (map (decimalize w) rs ! j) = None"
    and "batch_exit w (map (decimalize w) rs) = Some e"
  shows "persist w rs =
           (map PutItem (map (decimalize w) rs) @
              (case e of
                 ClientError m \<Rightarrow> [Print (''ERROR: Fallo al escribir en DynamoDB. '' @ m)]
               | _ \<Rightarrow> []),
            map (decimalize w) rs, Some e)"
proof -
  have "\<forall>j < length rs. put_item w ([] @ map (decimalize w) (take j rs)) (decimalize w (rs ! j)) = None"
    using assms(1) by (simp add: take_map)
  from put_all_succeeds [OF this]
  have p: "put_all w [] rs = (map PutItem (map (decimalize w) rs), map (decimalize w) rs, None)"
    by simp
  show ?thesis
    using persist_raise_explicit [OF p, of e] assms(2) by (simp add: puts_of_PutItems_comp)
qed

lemma persist_put_fails:
  assumes "k < length rs"
    and "\<forall>j < k. put_item w (take j (map (decimalize w) rs)) (map (decimalize w) rs ! j) = None"
    and "put_item w (take k (map (decimalize w) rs)) (map (decimalize w) rs ! k) = Some e0"
    and "e = (case batch_exit w (take (Suc k) (map (decimalize w) rs)) of None \<Rightarrow> e0 | Some e1 \<Rightarrow> e1)"
  shows "persist w rs =
           (map PutItem (take (Suc k) (map (decimalize w) rs)) @
              (case e of
                 ClientError m \<Rightarrow> [Print (''ERROR: Fallo al escribir en DynamoDB. '' @ m)]
               | _ \<Rightarrow> []),
            map (decimalize w) (take (Suc k) rs) @ drop (Suc k) rs, Some e)"
proof -
  have a: "\<forall>j < k. put_item w ([] @ map (decimalize w) (take j rs)) (decimalize w (rs ! j)) = None"
    using assms(1,2) by (simp add: take_map)
  have b: "put_item w ([] @ map (decimalize w) (take k rs)) (decimalize w (rs ! k)) = Some e0"
    using assms(1,3) by (simp add: take_map)
  from put_all_raises [OF assms(1) a b]
  have p: "put_all w [] rs =
      (map PutItem (map (decimalize w) (take (Suc k) rs)),
       map (decimalize w) (take (Suc k) rs) @ drop (Suc k) rs, Some e0)"
    by simp
  have "(case batch_exit w (puts_of (map PutItem (map (decimalize w) (take (Suc k) rs)))) of
           Some e \<Rightarrow> Some e | None \<Rightarrow> Some e0) = Some e"
    using assms(4) by (simp add: puts_of_PutItems_comp take_map split: option.splits)
  from persist_raise_explicit [OF p this] show ?thesis
    by (simp add: take_map)
qed

section \<open>Evaluating the sample environments\<close>

lemmas sample_defs = sample_world_def sample_posts_def lambda_handler_def build_def fetch_def
  get_secret_def persist_def batch_write_def puts_of_def prints_of_def fetched_def build_item_def
  format_response_def sentiment_label_def compound_of_def
  REGION_NAME_def SECRET_NAME_def SUBREDDIT_NAME_def LIMIT_POSTS_def USER_AGENT_def STATUS_TEXT_def
  str_nat.simps digit_char_def Let_def

lemma sample_fetch: "snd (fetch ((sample_world posts)\<lparr>now_isoformat := f\<rparr>)) = Inr (posts, None)"
  by (simp add: sample_defs)

lemma sample_fetch': "snd (fetch (sample_world posts)) = Inr (posts, None)"
  by (simp add: sample_defs)

lemma close_fails_fetch: "snd (fetch (close_fails e)) = Inr (sample_posts, None)"
  by (simp add: close_fails_def sample_world_def fetch_def get_secret_def)

section \<open>The claims\<close>

text \<open>
  C1. The label of a record is decided by its compound score \<open>s\<close> alone:
  \<open>Positive\<close> exactly when \<open>s \<ge> 0.05\<close>, \<open>Negative\<close> exactly when \<open>s \<le> -0.05\<close>,
  \<open>Neutral\<close> exactly in between; both boundaries are inclusive, so 0.05 is Positive,
  -0.05 is Negative and 0 is Neutral. The record built for a post holds that score and
  that label.
\<close>

theorem sentiment_label_thresholds:
  "sentiment_label 0.05 = ''Positive'' \<and> sentiment_label (- 0.05) = ''Negative'' \<and>
   sentiment_label 0 = ''Neutral'' \<and>
   (sentiment_label s = ''Positive'') = (s \<ge> 0.05) \<and>
   (sentiment_label s = ''Negative'') = (s \<le> - 0.05) \<and>
   (sentiment_label s = ''Neutral'') = (- 0.05 < s \<and> s < 0.05) \<and>
   SentimentScore (build_item w k p s) = Float s \<and>
   SentimentLabel (build_item w k p s) = sentiment_label s"
  by (auto simp: sentiment_label_def build_item_def)

theorem sentiment_label_thresholds_witness:
  "SentimentLabel (build_item (sample_world []) 0 \<lparr>post_id = ''a1'', post_title = ''good''\<rparr> 0.05) = ''Positive'' \<and>
   SentimentLabel (build_item (sample_world []) 0 \<lparr>post_id = ''a1'', post_title = ''good''\<rparr> (- 0.05)) = ''Negative'' \<and>
   SentimentLabel (build_item (sample_world []) 0 \<lparr>post_id = ''a1'', post_title = ''good''\<rparr> 0) = ''Neutral''"
  using sentiment_label_thresholds [of 0 "sample_world []" 0 "\<lparr>post_id = ''a1'', post_title = ''good''\<rparr>"]
        sentiment_label_thresholds [of "0.05" "sample_world []" 0 "\<lparr>post_id = ''a1'', post_title = ''good''\<rparr>"]
        sentiment_label_thresholds [of "- 0.05" "sample_world []" 0 "\<lparr>post_id = ''a1'', post_title = ''good''\<rparr>"]
  by simp

text \<open>
  C2. Every item handed to \<^verbatim>\<open>put_item\<close> stores, as its score, the decimal read from
  the string form of the float score of its title: \<open>Decimal (str x)\<close>, never a
  decimal made from the float itself. A score whose string form is \<open>0.1\<close> is stored as
  the decimal \<open>0.1\<close>.
\<close>

theorem stored_score_via_string:
  assumes "it \<in> set (puts_of (fst (lambda_handler w event context)))"
  shows "\<exists>x. compound_of w (Title it) = Some x \<and>
             SentimentScore it = Decimal (str_number w (Float x)) \<and>
             (str_number w (Float x) = ''0.1'' \<longrightarrow> SentimentScore it = Decimal ''0.1'')"
proof (cases "snd (build w)")
  case (Inl e)
  with assms show ?thesis by (simp add: handler_Inl build_puts)
next
  case (Inr rs)
  with assms have "it \<in> set (puts_of (fst (put_all w [] rs)))"
    by (simp add: handler_Inr puts_of_append build_puts persist_parts)
  then obtain r where r: "r \<in> set rs" "it = decimalize w r"
    using put_all_puts [of w "[]" rs] by auto
  from build_scored [OF Inr] r(1) have "scored w r"
    by (simp add: list_all_iff)
  then obtain x where "compound_of w (Title r) = Some x" "SentimentScore r = Float x"
    by (auto simp: scored_def split: option.splits)
  with r(2) show ?thesis by (simp add: decimalize_def)
qed

theorem stored_score_via_string_witness:
  "\<lparr>SubredditName = ''valencia'', Timestamp = ''2024-01-01T00:00:00'', PostID = ''a1'',
     Title = ''good'', SentimentScore = Decimal ''0.1'', SentimentLabel = ''Positive''\<rparr>
     \<in> set (puts_of (fst (lambda_handler (sample_world sample_posts) () ()))) \<and>
   compound_of (sample_world sample_posts) ''good'' = Some 0.1 \<and>
   str_number (sample_world sample_posts) (Float 0.1) = ''0.1''"
proof -
  let ?it = "\<lparr>SubredditName = ''valencia'', Timestamp = ''2024-01-01T00:00:00'', PostID = ''a1'',
     Title = ''good'', SentimentScore = Decimal ''0.1'', SentimentLabel = ''Positive''\<rparr>"
  have h: "?it \<in> set (puts_of (fst (lambda_handler (sample_world sample_posts) () ())))"
    by (simp add: sample_defs)
  from stored_score_via_string [OF h] h show ?thesis
    by (simp add: sample_world_def compound_of_def)
qed

text \<open>
  C3, as the code has it. The listing has yielded \<open>posts\<close> and every title has a score,
  so the persister is reached with the records built from them. Whichever way the table
  store fails the batch write, the handler raises and returns no response:
  \<^item> every \<^verbatim>\<open>put_item\<close> is accepted and closing the batch raises \<open>e\<close>;
  \<^item> the \<open>k\<close>-th \<^verbatim>\<open>put_item\<close> raises \<open>e\<close> and closing the batch raises nothing;
  \<^item> the \<open>k\<close>-th \<^verbatim>\<open>put_item\<close> raises and closing the batch raises \<open>e\<close> in its place.
  In each case the handler raises \<open>e\<close>, and its effects are exactly the progress of the
  loop, the items put, and then the line \<open>ERROR: Fallo al escribir en DynamoDB.\<close> when
  \<open>e\<close> is a \<^verbatim>\<open>ClientError\<close>, the class named by the \<^verbatim>\<open>except\<close> clause of line 85;
  for an exception of another class nothing is printed about the failure.
\<close>

theorem persistence_failure_reraised:
  assumes "snd (fetch w) = Inr (posts, None)"
    and "\<forall>p \<in> set posts. compound_of w (post_title p) \<noteq> None"
  shows
    "((\<forall>j < length posts.
         put_item w (take j (stored_records w posts)) (stored_records w posts ! j) = None) \<and>
      batch_exit w (stored_records w posts) = Some e \<longrightarrow>
      lambda_handler w event context =
        (progress (length posts) @ map PutItem (stored_records w posts) @
           (case e of
              ClientError m \<Rightarrow> [Print (''ERROR: Fallo al escribir en DynamoDB. '' @ m)]
            | _ \<Rightarrow> []),
         Inl e)) \<and>
     (k < length posts \<and>
      (\<forall>j < k. put_item w (take j (stored_records w posts)) (stored_records w posts ! j) = None) \<and>
      put_item w (take k (stored_records w posts)) (stored_records w posts ! k) = Some e \<and>
      batch_exit w (take (Suc k) (stored_records w posts)) = None \<longrightarrow>
      lambda_handler w event context =
        (progress (length posts) @ map PutItem (take (Suc k) (stored_records w posts)) @
           (case e of
              ClientError m \<Rightarrow> [Print (''ERROR: Fallo al escribir en DynamoDB. '' @ m)]
            | _ \<Rightarrow> []),
         Inl e)) \<and>
     (k < length posts \<and>
      (\<forall>j < k. put_item w (take j (stored_records w posts)) (stored_records w posts ! j) = None) \<and>
      put_item w (take k (stored_records w posts)) (stored_records w posts ! k) = Some e0 \<and>
      batch_exit w (take (Suc k) (stored_records w posts)) = Some e \<longrightarrow>
      lambda_handler w event context =
        (progress (length posts) @ map PutItem (take (Suc k) (stored_records w posts)) @
           (case e of
              ClientError m \<Rightarrow> [Print (''ERROR: Fallo al escribir en DynamoDB. '' @ m)]
            | _ \<Rightarrow> []),
         Inl e))"
proof -
  let ?rs = "built_records w posts"
  have b: "build w = (progress (length posts), Inr ?rs)"
    by (rule build_explicit [OF assms])
  then have sb: "snd (build w) = Inr ?rs"
    by simp
  have n: "length ?rs = length posts"
    by (rule length_built_records)
  have h: "\<And>ev res x. persist w ?rs = (ev, res, Some x) \<Longrightarrow>
             lambda_handler w event context = (progress (length posts) @ ev, Inl x)"
    using b by (simp add: handler_Inr [OF sb])
  let ?S = "map (decimalize w) ?rs"
  let ?log = "\<lambda>x. case x of
                 ClientError m \<Rightarrow> [Print (''ERROR: Fallo al escribir en DynamoDB. '' @ m)]
               | _ \<Rightarrow> []"
  have close: "lambda_handler w event context =
        (progress (length posts) @ map PutItem ?S @ ?log e, Inl e)"
    if "\<forall>j < length posts. put_item w (take j ?S) (?S ! j) = None"
      and "batch_exit w ?S = Some e"
  proof -
    have "\<forall>j < length ?rs. put_item w (take j ?S) (?S ! j) = None"
      using that(1) by (simp only: n)
    from h [OF persist_close_fails [OF this that(2)]] show ?thesis .
  qed
  have put: "lambda_handler w event context =
        (progress (length posts) @ map PutItem (take (Suc k) ?S) @ ?log x, Inl x)"
    if "k < length posts"
      and "\<forall>j < k. put_item w (take j ?S) (?S ! j) = None"
      and "put_item w (take k ?S) (?S ! k) = Some x0"
      and "x = (case batch_exit w (take (Suc k) ?S) of None \<Rightarrow> x0 | Some e1 \<Rightarrow> e1)"
    for x x0
  proof -
    have "k < length ?rs"
      using that(1) by (simp only: n)
    from h [OF persist_put_fails [OF this that(2) that(3) that(4)]] show ?thesis .
  qed
  show ?thesis
    unfolding stored_records_def
  proof (intro conjI impI)
    assume "(\<forall>j < length posts. put_item w (take j ?S) (?S ! j) = None) \<and>
      batch_exit w ?S = Some e"
    then show "lambda_handler w event context =
        (progress (length posts) @ map PutItem ?S @ ?log e, Inl e)"
      using close by blast
  next
    assume a: "k < length posts \<and>
      (\<forall>j < k. put_item w (take j ?S) (?S ! j) = None) \<and>
      put_item w (take k ?S) (?S ! k) = Some e \<and>
      batch_exit w (take (Suc k) ?S) = None"
    then have "e = (case batch_exit w (take (Suc k) ?S) of None \<Rightarrow> e | Some e1 \<Rightarrow> e1)"
      by simp
    with a show "lambda_handler w event context =
        (progress (length posts) @ map PutItem (take (Suc k) ?S) @ ?log e, Inl e)"
      using put [of e e] by blast
  next
    assume a: "k < length posts \<and>
      (\<forall>j < k. put_item w (take j ?S) (?S ! j) = None) \<and>
      put_item w (take k ?S) (?S ! k) = Some e0 \<and>
      batch_exit w (take (Suc k) ?S) = Some e"
    then have "e = (case batch_exit w (take (Suc k) ?S) of None \<Rightarrow> e0 | Some e1 \<Rightarrow> e1)"
      by simp
    with a show "lambda_handler w event context =
        (progress (length posts) @ map PutItem (take (Suc k) ?S) @ ?log e, Inl e)"
      using put [of e0 e] by blast
  qed
qed

theorem persistence_failure_reraised_witness:
  "lambda_handler (close_fails (ClientError ''throttled'')) () () =
     ([GetSecretValue ''eu-west-3'' ''RedditPRAWCredentials'', Hot ''valencia'' 50,
       Print ''Posts procesados y listos para carga: 1'',
       Print ''Posts procesados y listos para carga: 2'',
       PutItem \<lparr>SubredditName = ''valencia'', Timestamp = ''2024-01-01T00:00:00'',
                PostID = ''a1'', Title = ''good'', SentimentScore = Decimal ''0.1'',
                SentimentLabel = ''Positive''\<rparr>,
       PutItem \<lparr>SubredditName = ''valencia'', Timestamp = ''2024-01-01T00:00:01'',
                PostID = ''b2'', Title = ''meh'', SentimentScore = Decimal ''0.0'',
                SentimentLabel = ''Neutral''\<rparr>,
       Print ''ERROR: Fallo al escribir en DynamoDB. throttled''],
      Inl (ClientError ''throttled''))"
proof -
  let ?w = "close_fails (ClientError ''throttled'')"
  have h1: "snd (fetch ?w) = Inr (sample_posts, None)"
    by (rule close_fails_fetch)
  have h2: "\<forall>p \<in> set sample_posts. compound_of ?w (post_title p) \<noteq> None"
    by (simp add: close_fails_def sample_world_def compound_of_def)
  have s: "stored_records ?w sample_posts =
     [\<lparr>SubredditName = ''valencia'', Timestamp = ''2024-01-01T00:00:00'',
                PostID = ''a1'', Title = ''good'', SentimentScore = Decimal ''0.1'',
                SentimentLabel = ''Positive''\<rparr>,
      \<lparr>SubredditName = ''valencia'', Timestamp = ''2024-01-01T00:00:01'',
                PostID = ''b2'', Title = ''meh'', SentimentScore = Decimal ''0.0'',
                SentimentLabel = ''Neutral''\<rparr>]"
    by (simp add: stored_records_def built_records_def decimalize_def close_fails_def sample_defs)
  have p: "\<forall>j < length sample_posts.
      put_item ?w (take j (stored_records ?w sample_posts)) (stored_records ?w sample_posts ! j) = None"
    by (simp add: close_fails_def sample_world_def)
  have c: "batch_exit ?w (stored_records ?w sample_posts) = Some (ClientError ''throttled'')"
    by (simp add: s) (simp add: close_fails_def)
  have g: "progress (length sample_posts) =
     [GetSecretValue ''eu-west-3'' ''RedditPRAWCredentials'', Hot ''valencia'' 50,
       Print ''Posts procesados y listos para carga: 1'',
       Print ''Posts procesados y listos para carga: 2'']"
    by (simp add: progress_def sample_defs upt_rec)
  from persistence_failure_reraised [OF h1 h2, of "ClientError ''throttled''" "()" "()"] p c
  show ?thesis
    by (simp add: s g)
qed

text \<open>
  C3 as stated fails: both items are accepted, the table store cannot be reached when
  the batch is closed, the invocation aborts with that exception, and the output holds
  the two progress lines only, no line about the failure.
\<close>

theorem persistence_failure_unlogged_counterexample:
  "lambda_handler (close_fails unreachable) () () =
     ([GetSecretValue ''eu-west-3'' ''RedditPRAWCredentials'', Hot ''valencia'' 50,
       Print ''Posts procesados y listos para carga: 1'',
       Print ''Posts procesados y listos para carga: 2'',
       PutItem \<lparr>SubredditName = ''valencia'', Timestamp = ''2024-01-01T00:00:00'',
                PostID = ''a1'', Title = ''good'', SentimentScore = Decimal ''0.1'',
                SentimentLabel = ''Positive''\<rparr>,
       PutItem \<lparr>SubredditName = ''valencia'', Timestamp = ''2024-01-01T00:00:01'',
                PostID = ''b2'', Title = ''meh'', SentimentScore = Decimal ''0.0'',
                SentimentLabel = ''Neutral''\<rparr>],
      Inl unreachable) \<and>
   prints_of (fst (lambda_handler (close_fails unreachable) () ())) =
     [''Posts procesados y listos para carga: 1'', ''Posts procesados y listos para carga: 2'']"
  by (simp add: close_fails_def unreachable_def sample_defs)

text \<open>
  C4, as the code has it. When \<^verbatim>\<open>get_secret_value\<close> raises \<open>e\<close>, the handler raises
  \<open>e\<close> after the one request to the secret store: no listing is requested and no item
  is put. The \<^verbatim>\<open>except\<close> clause of line 27 names \<^verbatim>\<open>ClientError\<close>: the line
  \<open>Error: No se pudo obtener el secreto\<close> is printed when \<open>e\<close> is a \<^verbatim>\<open>ClientError\<close>,
  and nothing is printed for an exception of another class.
\<close>

theorem secret_failure_aborts:
  assumes "get_secret_value w REGION_NAME SECRET_NAME = Inl e"
  shows "lambda_handler w event context =
           (GetSecretValue REGION_NAME SECRET_NAME #
              (case e of
                 ClientError m \<Rightarrow> [Print ''Error: No se pudo obtener el secreto RedditPRAWCredentials.'']
               | _ \<Rightarrow> []),
            Inl e) \<and>
         \<not> fetched (fst (lambda_handler w event context)) \<and>
         puts_of (fst (lambda_handler w event context)) = []"
  using assms
  by (simp add: lambda_handler_def build_def fetch_def get_secret_def fetched_def puts_of_def
        SECRET_NAME_def split: exn.splits)

theorem secret_failure_aborts_witness:
  "lambda_handler (secret_fails (ClientError ''ResourceNotFoundException'')) () () =
     ([GetSecretValue ''eu-west-3'' ''RedditPRAWCredentials'',
       Print ''Error: No se pudo obtener el secreto RedditPRAWCredentials.''],
      Inl (ClientError ''ResourceNotFoundException''))"
proof -
  have h: "get_secret_value (secret_fails (ClientError ''ResourceNotFoundException''))
             REGION_NAME SECRET_NAME = Inl (ClientError ''ResourceNotFoundException'')"
    by (simp add: secret_fails_def sample_world_def)
  from secret_failure_aborts [OF h, of "()" "()"] show ?thesis
    by (simp add: REGION_NAME_def SECRET_NAME_def)
qed

text \<open>
  C4 as stated fails: the secret store cannot be reached, the invocation aborts with
  that exception, and nothing is printed.
\<close>

theorem secret_failure_unlogged_counterexample:
  "lambda_handler (secret_fails unreachable) () () =
     ([GetSecretValue ''eu-west-3'' ''RedditPRAWCredentials''], Inl unreachable) \<and>
   prints_of (fst (lambda_handler (secret_fails unreachable) () ())) = []"
  by (simp add: secret_fails_def unreachable_def sample_defs)

text \<open>
  C5. When the listing yields no post (and closing the empty batch raises nothing),
  \<^verbatim>\<open>put_item\<close> is never called and the handler returns status 200 with a body that
  reports \<open>posts_count\<close> 0.
\<close>

theorem empty_fetch_succeeds:
  assumes "snd (fetch w) = Inr ([], None)" and "batch_exit w [] = None"
  shows "snd (lambda_handler w event context) =
           Inr \<lparr>statusCode = 200,
                body = json_dumps w (JObject [(''posts_count'', JInt 0),
                                              (''status'', JString STATUS_TEXT)])\<rparr> \<and>
         puts_of (fst (lambda_handler w event context)) = []"
proof -
  have b: "snd (build w) = Inr []"
    using assms(1) by (simp add: build_Inr)
  have p: "persist w [] = ([Print ''Carga exitosa a DynamoDB: 0 elementos.''], [], None)"
    using assms(2) by (simp add: persist_def batch_write_def puts_of_simps str_nat.simps digit_char_def)
  show ?thesis
    by (simp add: handler_Inr [OF b] p format_response_def puts_of_append build_puts puts_of_simps)
qed

theorem empty_fetch_succeeds_witness:
  "lambda_handler (sample_world []) () () =
     ([GetSecretValue ''eu-west-3'' ''RedditPRAWCredentials'', Hot ''valencia'' 50,
       Print ''Carga exitosa a DynamoDB: 0 elementos.''],
      Inr \<lparr>statusCode = 200, body = ''posts_count=0''\<rparr>)"
proof -
  have h1: "snd (fetch (sample_world [])) = Inr ([], None)"
    by (rule sample_fetch')
  have h2: "batch_exit (sample_world []) [] = None"
    by (simp add: sample_world_def)
  have ev: "fst (lambda_handler (sample_world []) () ()) =
     [GetSecretValue ''eu-west-3'' ''RedditPRAWCredentials'', Hot ''valencia'' 50,
       Print ''Carga exitosa a DynamoDB: 0 elementos.'']"
    by (simp add: sample_defs)
  have d: "json_dumps (sample_world []) (JObject [(''posts_count'', JInt 0),
                                              (''status'', JString STATUS_TEXT)]) = ''posts_count=0''"
    by (simp add: sample_world_def str_nat.simps digit_char_def)
  from empty_fetch_succeeds [OF h1 h2, of "()" "()"] ev d show ?thesis
    by (simp add: prod_eq_iff)
qed

text \<open>
  C6, as the code has it. When the listing yields the posts \<open>posts\<close> (50 of them, or
  any number) and each title gets a score, one record is built per post, every record
  carries the same SubredditName, and the \<open>k\<close>-th record holds the \<open>k\<close>-th reading of the
  clock, taken while that post is handled: no reading is shared. Nothing in the handler
  compares or adjusts the readings, so the timestamps are distinct exactly when the
  readings of the clock are.
\<close>

theorem one_clock_reading_per_record:
  assumes "snd (fetch w) = Inr (posts, None)"
    and "\<forall>p \<in> set posts. compound_of w (post_title p) \<noteq> None"
  shows "\<exists>rs. snd (build w) = Inr rs \<and> length rs = length posts \<and>
              (\<forall>r \<in> set rs. SubredditName r = SUBREDDIT_NAME) \<and>
              map Timestamp rs = map (now_isoformat w) [0..<length posts] \<and>
              distinct (map Timestamp rs) = distinct (map (now_isoformat w) [0..<length posts])"
proof -
  let ?rs = "map (\<lambda>(k, p). build_item w k p (the (compound_of w (post_title p))))
                 (enumerate 0 posts)"
  have b: "snd (build w) = Inr ?rs"
    using process_posts_ok [OF assms(2), of "[]"] by (simp add: build_Inr [OF assms(1)])
  have n: "\<forall>r \<in> set ?rs. SubredditName r = SUBREDDIT_NAME"
    by (auto simp: build_item_def)
  have "map Timestamp ?rs = map (\<lambda>x. now_isoformat w (fst x)) (enumerate 0 posts)"
    by (simp add: build_item_def case_prod_beta o_def)
  then have t: "map Timestamp ?rs = map (now_isoformat w) [0..<length posts]"
    by (simp only: map_enumerate_fst add_0)
  show ?thesis
    using b n t by (intro exI [of _ ?rs]) simp
qed

theorem one_clock_reading_per_record_witness:
  "length fifty_posts = 50 \<and>
   (\<exists>rs. snd (build (sample_world fifty_posts)) = Inr rs \<and> length rs = 50 \<and>
      map Timestamp rs = map (now_isoformat (sample_world fifty_posts)) [0..<50])"
proof -
  have h1: "snd (fetch (sample_world fifty_posts)) = Inr (fifty_posts, None)"
    by (rule sample_fetch')
  have h2: "\<forall>p \<in> set fifty_posts. compound_of (sample_world fifty_posts) (post_title p) \<noteq> None"
    by (simp add: fifty_posts_def compound_of_def sample_world_def)
  have n: "length fifty_posts = 50"
    by (simp add: fifty_posts_def)
  from one_clock_reading_per_record [OF h1 h2] n show ?thesis
    by auto
qed

text \<open>
  C6 as stated fails: with a clock whose reading does not move between two calls, the
  listing yields 50 posts, 50 records are built, and all of them hold the same
  timestamp.
\<close>

theorem shared_timestamp_counterexample:
  "length fifty_posts = 50 \<and>
   snd (fetch frozen_clock) = Inr (fifty_posts, None) \<and>
   snd (build frozen_clock) = Inr (replicate 50 frozen_record) \<and>
   \<not> distinct (map Timestamp (replicate 50 frozen_record))"
proof -
  have f: "snd (fetch frozen_clock) = Inr (fifty_posts, None)"
    unfolding frozen_clock_def by (rule sample_fetch)
  have c: "\<forall>p \<in> set fifty_posts. compound_of frozen_clock (post_title p) \<noteq> None"
    by (simp add: fifty_posts_def compound_of_def frozen_clock_def sample_world_def)
  have same: "\<And>x. x \<in> set (enumerate 0 fifty_posts) \<Longrightarrow>
          (\<lambda>(k, p). build_item frozen_clock k p (the (compound_of frozen_clock (post_title p)))) x
            = frozen_record"
    by (auto simp: fifty_posts_def in_set_enumerate_eq build_item_def compound_of_def
          frozen_clock_def sample_world_def frozen_record_def SUBREDDIT_NAME_def
          sentiment_label_def)
  have "map (\<lambda>(k, p). build_item frozen_clock k p (the (compound_of frozen_clock (post_title p))))
               (enumerate 0 fifty_posts) = map (\<lambda>x. frozen_record) (enumerate 0 fifty_posts)"
    by (rule map_cong [OF refl]) (rule same)
  also have "\<dots> = replicate 50 frozen_record"
    by (simp add: map_replicate_const fifty_posts_def)
  finally have "map (\<lambda>(k, p). build_item frozen_clock k p (the (compound_of frozen_clock (post_title p))))
               (enumerate 0 fifty_posts) = replicate 50 frozen_record" .
  then have b: "snd (build frozen_clock) = Inr (replicate 50 frozen_record)"
    using process_posts_ok [OF c, of "[]"] by (simp add: build_Inr [OF f])
  have "(50::nat) = Suc (Suc 48)"
    by simp
  then have "replicate 50 frozen_record = frozen_record # frozen_record # replicate 48 frozen_record"
    by (simp only: replicate_Suc)
  then have d: "\<not> distinct (map Timestamp (replicate 50 frozen_record))"
    by simp
  show ?thesis using f b d by (simp add: fifty_posts_def)
qed




text \<open>
  C8. Whenever the handler returns a response, its statusCode is the integer 200 and
  its body is the string \<^verbatim>\<open>json.dumps\<close> gives for the object with the integer field
  \<open>posts_count\<close> and the fixed string field \<open>status\<close>; \<open>posts_count\<close> is the number of
  records processed, which is the number of items put and the number of posts the
  listing yielded.
\<close>

theorem success_response_shape:
  assumes "lambda_handler w event context = (ev, Inr r)"
  shows "statusCode r = 200 \<and>
         body r = json_dumps w (JObject [(''posts_count'', JInt (int (length (puts_of ev)))),
                                         (''status'', JString STATUS_TEXT)]) \<and>
         (\<exists>posts. snd (fetch w) = Inr (posts, None) \<and> length posts = length (puts_of ev))"
proof (cases "snd (build w)")
  case (Inl e)
  with assms show ?thesis by (simp add: handler_Inl)
next
  case (Inr rs)
  from assms have ok: "snd (snd (persist w rs)) = None"
    and r: "r = format_response w (fst (snd (persist w rs)))"
    and ev: "ev = fst (build w) @ fst (persist w rs)"
    by (auto simp: handler_Inr [OF Inr] split: option.splits)
  from ok have "snd (snd (put_all w [] rs)) = None"
    by (simp add: persist_parts batch_write_None)
  from put_all_ok [OF this] have res: "fst (snd (persist w rs)) = map (decimalize w) rs"
    and puts: "puts_of ev = map (decimalize w) rs"
    by (simp_all add: persist_parts ev puts_of_append build_puts)
  obtain posts stop where f: "snd (fetch w) = Inr (posts, stop)"
    using Inr by (cases "snd (fetch w)") (auto simp: build_Inl)
  with Inr have "snd (process_posts w posts stop []) = Inr rs"
    by (simp add: build_Inr)
  from process_posts_length [OF this] have "stop = None" "length rs = length posts"
    by simp_all
  with f r res puts show ?thesis
    by (simp add: format_response_def)
qed

theorem success_response_shape_witness:
  "lambda_handler (sample_world sample_posts) () () =
     (fst (lambda_handler (sample_world sample_posts) () ()),
      Inr \<lparr>statusCode = 200, body = ''posts_count=2''\<rparr>) \<and>
   length (puts_of (fst (lambda_handler (sample_world sample_posts) () ()))) = 2 \<and>
   json_dumps (sample_world sample_posts)
     (JObject [(''posts_count'', JInt 2), (''status'', JString STATUS_TEXT)]) = ''posts_count=2''"
proof -
  have h: "lambda_handler (sample_world sample_posts) () () =
     (fst (lambda_handler (sample_world sample_posts) () ()),
      Inr \<lparr>statusCode = 200, body = ''posts_count=2''\<rparr>)"
    by (simp add: sample_defs)
  have d: "json_dumps (sample_world sample_posts)
     (JObject [(''posts_count'', JInt 2), (''status'', JString STATUS_TEXT)]) = ''posts_count=2''"
    by (simp add: sample_world_def str_nat.simps digit_char_def)
  have n: "length (puts_of (fst (lambda_handler (sample_world sample_posts) () ()))) = 2"
    by (simp add: sample_defs)
  from success_response_shape [OF h] h d n show ?thesis
    by simp
qed

text \<open>
  C9. The event payload and the context are not used: two invocations in the same
  environment (secret store, content API, sentiment library, clock, table store) that
  differ in the event and the context only perform the same effects, the writes among
  them, and end with the same result.
\<close>

theorem event_and_context_unused:
  "lambda_handler w event context = lambda_handler w event' context'"
  by (simp add: lambda_handler_def)

theorem event_and_context_unused_witness:
  "lambda_handler (sample_world sample_posts) (1::nat) True =
   lambda_handler (sample_world sample_posts) ''scheduled'' [2::int]"
  by (rule event_and_context_unused)

text \<open>
  C10. When the secret is retrieved and parses to a JSON object that lacks
  \<open>client_id\<close> or \<open>client_secret\<close>, the handler raises \<^verbatim>\<open>KeyError\<close> for the first of
  the two keys that is missing. The one effect before it is the request to the secret
  store: nothing is printed (neither \<^verbatim>\<open>except\<close> clause is reached), no listing is
  requested and no item is put.
\<close>

theorem missing_credential_key_uncaught:
  assumes "get_secret_value w REGION_NAME SECRET_NAME = Inr resp"
    and "resp ''SecretString'' = Some s"
    and "json_loads w s = Inr (JObject kvs)"
    and "map_of kvs ''client_id'' = None \<or> map_of kvs ''client_secret'' = None"
  shows "lambda_handler w event context =
           ([GetSecretValue REGION_NAME SECRET_NAME],
            Inl (KeyError (if map_of kvs ''client_id'' = None then ''client_id''
                           else ''client_secret''))) \<and>
         prints_of (fst (lambda_handler w event context)) = [] \<and>
         \<not> fetched (fst (lambda_handler w event context)) \<and>
         puts_of (fst (lambda_handler w event context)) = []"
  using assms
  by (auto simp: lambda_handler_def build_def fetch_def get_secret_def prints_of_def fetched_def
        puts_of_def split: option.splits)

theorem missing_credential_key_uncaught_witness:
  "lambda_handler secret_lacks_key () () =
     ([GetSecretValue ''eu-west-3'' ''RedditPRAWCredentials''], Inl (KeyError ''client_secret''))"
proof -
  have h1: "get_secret_value secret_lacks_key REGION_NAME SECRET_NAME =
              Inr [''SecretString'' \<mapsto> ''{...}'']"
    by (simp add: secret_lacks_key_def sample_world_def)
  have h2: "[''SecretString'' \<mapsto> ''{...}''] ''SecretString'' = Some ''{...}''"
    by simp
  have h3: "json_loads secret_lacks_key ''{...}'' = Inr (JObject [(''client_id'', JString ''id'')])"
    by (simp add: secret_lacks_key_def sample_world_def)
  have h4: "map_of [(''client_id'', JString ''id'')] ''client_id'' = None \<or>
            map_of [(''client_id'', JString ''id'')] ''client_secret'' = None"
    by simp
  from missing_credential_key_uncaught [OF h1 h2 h3 h4, of "()" "()"] show ?thesis
    by (simp add: REGION_NAME_def SECRET_NAME_def)
qed

end
